theory Spec2Isabelle
  imports Complex_Main "HOL-Library.Multiset" "HOL-Library.Char_ord" "HOL-Library.List_Lexorder"
begin

section \<open>Python values shared by both modules\<close>

text \<open>
  Strings are lists of characters; a character stands for a code point below 256.
  Every exception the two modules can raise is a constructor of \<open>py_error\<close>, and a
  function that can raise returns \<open>py_error + 'a\<close> with \<open>Inl\<close> for the exception.
  \<open>NotAdaptedError\<close> is the only exception class the repository declares; the others are
  Python's own. A ValueError that \<open>np.array\<close> raises is told apart from the ValueError
  of a Python statement or of scikit-learn by a constructor of its own,
  \<open>ValueError_np_array\<close>; in Python both are instances of ValueError and differ in their
  message.
\<close>

datatype py_error =
    ValueError
  | ValueError_np_array
  | KeyError
  | IndexError
  | AttributeError
  | FileNotFoundError
  | NotAdaptedError

text \<open>\<open>str.isspace\<close> on one character, for code points below 256.\<close>

definition py_isspace :: "char \<Rightarrow> bool" where
  "py_isspace c =
     (let n = (of_char c :: nat)
      in (9 \<le> n \<and> n \<le> 13) \<or> (28 \<le> n \<and> n \<le> 32) \<or> n = 133 \<or> n = 160)"

text \<open>C's \<open>isspace\<close> in the C locale, which numpy's text reader uses.\<close>

definition c_isspace :: "char \<Rightarrow> bool" where
  "c_isspace c = (let n = (of_char c :: nat) in (9 \<le> n \<and> n \<le> 13) \<or> n = 32)"

text \<open>\<open>s.strip()\<close>: leading and trailing whitespace removed.\<close>

definition strip :: "string \<Rightarrow> string" where
  "strip s = rev (dropWhile py_isspace (rev (dropWhile py_isspace s)))"

text \<open>\<open>s.split(sep)\<close> for a one-character separator: never an empty list.\<close>

fun split_on :: "char \<Rightarrow> string \<Rightarrow> string list" where
  "split_on sep [] = [[]]"
| "split_on sep (c # cs) =
     (let r = split_on sep cs in if c = sep then [] # r else (c # hd r) # tl r)"

text \<open>
  \<open>s.split(maxsplit=1)\<close>: split at runs of whitespace, at most once. Leading whitespace
  is dropped; the remainder after the first field keeps its trailing whitespace, and a
  remainder that is only whitespace is no field.
\<close>

definition split_maxsplit1 :: "string \<Rightarrow> string list" where
  "split_maxsplit1 line =
     (let s = dropWhile py_isspace line in
      if s = [] then []
      else
        let word = takeWhile (\<lambda>c. \<not> py_isspace c) s;
            rest = dropWhile py_isspace (dropWhile (\<lambda>c. \<not> py_isspace c) s)
        in if rest = [] then [word] else [word, rest])"

text \<open>\<open>str(n)\<close> for a natural number: its decimal digits.\<close>

definition digit_char :: "nat \<Rightarrow> char" where
  "digit_char d = char_of (48 + d)"

function str_nat :: "nat \<Rightarrow> string" where
  "str_nat n = (if n < 10 then [digit_char n] else str_nat (n div 10) @ [digit_char (n mod 10)])"
  by pat_completeness auto
termination
  by (relation "measure (\<lambda>n. n)") auto

declare str_nat.simps [simp del]

text \<open>\<open>os.path.join(a, b)\<close> on POSIX paths.\<close>

definition path_join :: "string \<Rightarrow> string \<Rightarrow> string" where
  "path_join a b =
     (if b \<noteq> [] \<and> hd b = CHR ''/'' then b
      else if a = [] \<or> last a = CHR ''/'' then a @ b
      else a @ ''/'' @ b)"

section \<open>numpy arrays\<close>

text \<open>
  An array is the list of its elements, nested for each dimension; only building one can
  fail. \<open>np.array(xs)\<close> on a sequence of arrays stacks them when they all have the same
  shape. When they do not, the result depends on the numpy that runs the code, which the
  repository does not pin:
  \<^item> numpy from 1.24 on raises ValueError ("inhomogeneous shape");
  \<^item> older numpy builds a one-dimensional array of objects when the elements differ
    in their first dimension, and raises ValueError ("could not broadcast input array")
    when they agree in the first dimension and differ in a later one.
  The shape of an element is the list of its dimensions, given by the parameter \<open>shape\<close>.
\<close>

datatype numpy = Before_1_24 | From_1_24

definition np_array :: "numpy \<Rightarrow> ('a \<Rightarrow> nat list) \<Rightarrow> 'a list \<Rightarrow> py_error + 'a list" where
  "np_array np shape xs =
     (if list_all (\<lambda>x. shape x = shape (hd xs)) xs then Inr xs
      else if np = Before_1_24 \<and> list_ex (\<lambda>x. take 1 (shape x) \<noteq> take 1 (shape (hd xs))) xs
      then Inr xs
      else Inl ValueError_np_array)"

text \<open>The shape of a one-dimensional array.\<close>

definition shape1 :: "'a list \<Rightarrow> nat list" where
  "shape1 xs = [length xs]"

text \<open>
  The shape of the array built from a list of one-dimensional arrays: two-dimensional
  when the rows have one length, one-dimensional otherwise (no rows, or an array of
  objects).
\<close>

definition shape2 :: "'a list list \<Rightarrow> nat list" where
  "shape2 rows =
     (if rows \<noteq> [] \<and> list_all (\<lambda>row. length row = length (hd rows)) rows
      then [length rows, length (hd rows)]
      else [length rows])"

text \<open>
  The list comprehension \<open>[f(document) for document in documents]\<close>, stopping at the
  first exception.
\<close>

fun map_documents :: "('a \<Rightarrow> py_error + 'b) \<Rightarrow> 'a list \<Rightarrow> py_error + 'b list" where
  "map_documents f [] = Inr []"
| "map_documents f (document # ds) =
     (case f document of
        Inl e \<Rightarrow> Inl e
      | Inr r \<Rightarrow> (case map_documents f ds of Inl e \<Rightarrow> Inl e | Inr rs \<Rightarrow> Inr (r # rs)))"

section \<open>text\_vectorizer.py: TextVectorizer\<close>

text \<open>
  The object has three attributes. \<open>vocabulary\<close> is a dict from words to numpy vectors;
  a vector is the list of its entries. The entries are float32 numbers in the source;
  here their type is a parameter \<open>'f\<close>, and every operation that produces an entry
  (numpy's number scanner, numpy's random generator) is a parameter too, so that
  nothing below depends on floating-point arithmetic.
\<close>

record 'f TextVectorizer =
  max_tokens :: int
  embedding_dim :: nat
  vocabulary :: "string \<rightharpoonup> 'f list"

subsection \<open>parse\_glove\<close>

text \<open>
  \<open>np.fromstring(coefs, "f", sep=" ")\<close>. The parameter \<open>strtod\<close> is numpy's number
  scanner: \<open>strtod s = Some (v, n)\<close> when it reads the number \<open>v\<close> from the first \<open>n\<close>
  characters of \<open>s\<close> (leading whitespace included), and \<open>None\<close> when \<open>s\<close> does not start
  with a number. After a number the separator must match: a run of at least one
  whitespace character. The loop stops at the end of the text, and also, keeping what it
  has read so far, at the first place where no number or no separator is found. It
  returns the numbers read and whether the text was read to its end.
\<close>

function fromstring_loop ::
  "(string \<Rightarrow> ('f \<times> nat) option) \<Rightarrow> string \<Rightarrow> 'f list \<Rightarrow> 'f list \<times> bool" where
  "fromstring_loop strtod s acc =
     (case strtod s of
        None \<Rightarrow> (acc, s = [])
      | Some (v, n) \<Rightarrow>
          if n = 0 then (acc, s = [])
          else
            let s' = drop n s; s'' = dropWhile c_isspace s'
            in if s'' = [] then (acc @ [v], True)
               else if s'' = s' then (acc @ [v], False)
               else fromstring_loop strtod s'' (acc @ [v]))"
  by pat_completeness auto

termination
proof (relation "measure (\<lambda>(strtod, s, acc). length s)", goal_cases)
  case 1
  show ?case by simp
next
  case (2 strtod s acc x2 v n s' s'')
  have shorter: "dropWhile P xs \<noteq> xs \<Longrightarrow> length (dropWhile P xs) < length xs"
    for P :: "char \<Rightarrow> bool" and xs
    by (induction xs) (auto simp: less_Suc_eq_le length_dropWhile_le split: if_splits)
  have "length s'' < length s'"
    using 2 shorter [of c_isspace s'] by auto
  moreover have "length s' \<le> length s"
    using 2 by simp
  ultimately show ?case by simp
qed

declare fromstring_loop.simps [simp del]

text \<open>
  When the text is not read to its end, numpy 1.18 and later returns the numbers read
  so far with a DeprecationWarning, which announces that this will raise a ValueError in
  the future. Both behaviours are modelled; which one numpy has is a parameter.
\<close>

datatype unmatched_data = Warns | Raises

definition fromstring ::
  "unmatched_data \<Rightarrow> (string \<Rightarrow> ('f \<times> nat) option) \<Rightarrow> string \<Rightarrow> py_error + 'f list" where
  "fromstring um strtod coefs =
     (case fromstring_loop strtod coefs [] of
        (values, read_to_end) \<Rightarrow>
          if read_to_end \<or> um = Warns then Inr values else Inl ValueError)"

text \<open>
  The loop over the lines of the embedding file. \<open>word, coefs = line.split(maxsplit=1)\<close>
  raises ValueError unless the split gives exactly two fields.
\<close>

fun parse_glove_lines ::
  "unmatched_data \<Rightarrow> (string \<Rightarrow> ('f \<times> nat) option) \<Rightarrow> string list
     \<Rightarrow> (string \<rightharpoonup> 'f list) \<Rightarrow> py_error + (string \<rightharpoonup> 'f list)" where
  "parse_glove_lines um strtod [] voc = Inr voc"
| "parse_glove_lines um strtod (line # rest) voc =
     (case split_maxsplit1 line of
        [word, coefs] \<Rightarrow>
          (case fromstring um strtod coefs of
             Inl e \<Rightarrow> Inl e
           | Inr v \<Rightarrow> parse_glove_lines um strtod rest (voc(word \<mapsto> v)))
      | _ \<Rightarrow> Inl ValueError)"

text \<open>
  The file system is a map from paths to the lines of each file (every line with its
  line terminator, as iterating over an open file gives them). \<open>embedding_dim\<close> is used
  for the file name, and for nothing else.
\<close>

definition glove_file :: "string \<Rightarrow> nat \<Rightarrow> string" where
  "glove_file embedding_folder n =
     path_join embedding_folder (''glove.6B.'' @ str_nat n @ ''d.txt'')"

definition parse_glove ::
  "unmatched_data \<Rightarrow> (string \<rightharpoonup> string list) \<Rightarrow> (string \<Rightarrow> ('f \<times> nat) option) \<Rightarrow> nat
     \<Rightarrow> string \<Rightarrow> py_error + (string \<rightharpoonup> 'f list)" where
  "parse_glove um fs strtod n embedding_folder =
     (case fs (glove_file embedding_folder n) of
        None \<Rightarrow> Inl FileNotFoundError
      | Some lines \<Rightarrow> parse_glove_lines um strtod lines Map.empty)"

text \<open>
  The constructor, on a file system where the embeddings are already extracted
  (\<open>download_glove_if_needed\<close> then does nothing).
\<close>

definition TextVectorizer_init ::
  "unmatched_data \<Rightarrow> (string \<rightharpoonup> string list) \<Rightarrow> (string \<Rightarrow> ('f \<times> nat) option) \<Rightarrow> int
     \<Rightarrow> nat \<Rightarrow> string \<Rightarrow> py_error + 'f TextVectorizer" where
  "TextVectorizer_init um fs strtod max_tokens' embedding_dim' embedding_folder =
     (case parse_glove um fs strtod embedding_dim' embedding_folder of
        Inl e \<Rightarrow> Inl e
      | Inr v \<Rightarrow>
          Inr \<lparr>max_tokens = max_tokens', embedding_dim = embedding_dim', vocabulary = v\<rparr>)"

subsection \<open>adapt\<close>

text \<open>
  numpy's global random generator: an infinite sequence of draws and the position of the
  next one. \<open>np.random.uniform(-1, 1, size=d)\<close> takes the next \<open>d\<close> draws.
\<close>

record 'f np_random =
  draws :: "nat \<Rightarrow> 'f"
  pos :: nat

definition uniform :: "nat \<Rightarrow> 'f np_random \<Rightarrow> 'f list \<times> 'f np_random" where
  "uniform d rng = (map (\<lambda>i. draws rng (pos rng + i)) [0..<d], rng\<lparr>pos := pos rng + d\<rparr>)"

text \<open>
  \<open>words - self.vocabulary.keys()\<close> is a set, and the loop visits it in the order of
  Python's set iteration, which the string hash of the process decides. The parameter
  \<open>hash\<close> is that order: the distinct out-of-vocabulary words are visited by increasing
  \<open>hash\<close>.
\<close>

definition oov_words :: "(string \<Rightarrow> nat) \<Rightarrow> (string \<rightharpoonup> 'f list) \<Rightarrow> string list list \<Rightarrow> string list" where
  "oov_words hash voc documents =
     sort_key hash (remdups (filter (\<lambda>word. voc word = None) (concat documents)))"

fun adapt_loop ::
  "nat \<Rightarrow> string list \<Rightarrow> (string \<rightharpoonup> 'f list) \<Rightarrow> 'f np_random
     \<Rightarrow> (string \<rightharpoonup> 'f list) \<times> 'f np_random" where
  "adapt_loop d [] voc rng = (voc, rng)"
| "adapt_loop d (word # ws) voc rng =
     (let (v, rng') = uniform d rng in adapt_loop d ws (voc(word \<mapsto> v)) rng')"

text \<open>
  \<open>adapt\<close> returns the updated object, the generator, and the number it prints
  (\<open>len(oov_words)\<close>).
\<close>

definition TextVectorizer_adapt ::
  "(string \<Rightarrow> nat) \<Rightarrow> 'f TextVectorizer \<Rightarrow> 'f np_random \<Rightarrow> string list list
     \<Rightarrow> 'f TextVectorizer \<times> 'f np_random \<times> nat" where
  "TextVectorizer_adapt hash self rng documents =
     (let oov = oov_words hash (vocabulary self) documents;
          (voc, rng') = adapt_loop (embedding_dim self) oov (vocabulary self) rng
      in (self\<lparr>vocabulary := voc\<rparr>, rng', length oov))"

subsection \<open>transform\<close>

text \<open>
  \<open>_transform_document\<close>: a missing key raises KeyError inside the list comprehension,
  which the \<open>except\<close> clause turns into NotAdaptedError. \<open>np.array\<close> of the vectors
  runs inside the \<open>try\<close> as well, and its ValueError is not caught.
\<close>

fun lookup_words :: "(string \<rightharpoonup> 'f list) \<Rightarrow> string list \<Rightarrow> py_error + 'f list list" where
  "lookup_words voc [] = Inr []"
| "lookup_words voc (word # ws) =
     (case voc word of
        None \<Rightarrow> Inl KeyError
      | Some v \<Rightarrow> (case lookup_words voc ws of Inl e \<Rightarrow> Inl e | Inr vs \<Rightarrow> Inr (v # vs)))"

definition transform_document ::
  "numpy \<Rightarrow> 'f TextVectorizer \<Rightarrow> string list \<Rightarrow> py_error + 'f list list" where
  "transform_document np self document =
     (case lookup_words (vocabulary self) document of
        Inl KeyError \<Rightarrow> Inl NotAdaptedError
      | Inl e \<Rightarrow> Inl e
      | Inr vs \<Rightarrow> np_array np shape1 vs)"

text \<open>
  \<open>transform\<close>: the arrays of the documents, one after the other, and then \<open>np.array\<close>
  of them.
\<close>

definition TextVectorizer_transform ::
  "numpy \<Rightarrow> 'f TextVectorizer \<Rightarrow> string list list \<Rightarrow> py_error + 'f list list list" where
  "TextVectorizer_transform np self documents =
     (case map_documents (transform_document np self) documents of
        Inl e \<Rightarrow> Inl e
      | Inr arrays \<Rightarrow> np_array np shape2 arrays)"

section \<open>text\_vectorizer.py: TargetVectorizer\<close>

subsection \<open>scikit-learn's LabelBinarizer\<close>

text \<open>
  \<open>LabelBinarizer\<close> is a class of the scikit-learn library, not of this repository. The
  definitions of this subsection follow the library's documented behaviour with the
  default \<open>neg_label=0\<close>, \<open>pos_label=1\<close>, \<open>sparse_output=False\<close>, on one-dimensional
  sequences of strings:
  \<^item> the attribute \<open>classes_\<close> does not exist before \<open>fit\<close>; reading it raises
    AttributeError. The field is written \<open>classes'\<close> here (a name cannot end with an
    underscore), and \<open>classes' = None\<close> is the attribute that does not exist;
  \<^item> \<open>fit(y)\<close> raises ValueError for a \<open>y\<close> with no samples, and otherwise sets
    \<open>classes_\<close> to the sorted distinct labels of \<open>y\<close>;
  \<^item> \<open>transform(y)\<close> is \<open>label_binarize(y, classes=classes_)\<close>: it raises ValueError
    for a \<open>y\<close> with no samples; it returns one row per label, of shape
    \<open>(n_samples, n_classes)\<close>, with a 1 in the column of the label and zeros elsewhere
    (a label that is not a class gives a row of zeros); "shape will be
    \<open>(n_samples, 1)\<close> for binary problems": when \<open>y\<close> has at most two distinct labels
    and there are fewer than three classes, only the last column is returned, and with
    one class that column is all zeros.
\<close>

record LabelBinarizer =
  classes' :: "string list option"

definition LabelBinarizer_init :: LabelBinarizer where
  "LabelBinarizer_init = \<lparr>classes' = None\<rparr>"

definition fit :: "LabelBinarizer \<Rightarrow> string list \<Rightarrow> py_error + LabelBinarizer" where
  "fit self y =
     (if y = [] then Inl ValueError else Inr (self\<lparr>classes' := Some (sort (remdups y))\<rparr>))"

datatype target_type = Binary | Multiclass

definition type_of_target :: "string list \<Rightarrow> target_type" where
  "type_of_target y = (if length (remdups y) > 2 then Multiclass else Binary)"

definition label_binarize :: "string list \<Rightarrow> string list \<Rightarrow> py_error + int list list" where
  "label_binarize y classes =
     (if y = [] then Inl ValueError
      else
        let y_type = type_of_target y; n_classes = length classes in
        if y_type = Binary \<and> n_classes = 1 then Inr (map (\<lambda>_. [0]) y)
        else
          let y_type' = (if y_type = Binary \<and> n_classes \<ge> 3 then Multiclass else y_type);
              Y = map (\<lambda>label. map (\<lambda>c. if c = label then 1 else 0) classes) y
          in if y_type' = Binary
             then (if n_classes = 0 then Inl IndexError else Inr (map (\<lambda>row. [last row]) Y))
             else Inr Y)"

subsection \<open>The class of the repository\<close>

record TargetVectorizer =
  vectorizer :: LabelBinarizer

definition TargetVectorizer_init :: TargetVectorizer where
  "TargetVectorizer_init = \<lparr>vectorizer = LabelBinarizer_init\<rparr>"

definition TargetVectorizer_adapt ::
  "TargetVectorizer \<Rightarrow> string list list \<Rightarrow> py_error + TargetVectorizer" where
  "TargetVectorizer_adapt self targets =
     (case fit (vectorizer self) (concat targets) of
        Inl e \<Rightarrow> Inl e
      | Inr lb \<Rightarrow> Inr (self\<lparr>vectorizer := lb\<rparr>))"

definition get_classes :: "TargetVectorizer \<Rightarrow> py_error + string list" where
  "get_classes self =
     (case classes' (vectorizer self) of None \<Rightarrow> Inl AttributeError | Some cs \<Rightarrow> Inr cs)"

text \<open>
  The guard reads \<open>self.vectorizer.classes_.shape[0]\<close>, so it raises AttributeError when
  the attribute does not exist, before the comparison with 0. After the guard the
  documents are binarized one after the other, and \<open>np.array\<close> is built from the
  results, each a two-dimensional array.
\<close>

definition TargetVectorizer_transform ::
  "numpy \<Rightarrow> TargetVectorizer \<Rightarrow> string list list \<Rightarrow> py_error + int list list list" where
  "TargetVectorizer_transform np self targets =
     (case classes' (vectorizer self) of
        None \<Rightarrow> Inl AttributeError
      | Some cs \<Rightarrow>
          if length cs = 0 then Inl NotAdaptedError
          else
            (case map_documents (\<lambda>document. label_binarize document cs) targets of
               Inl e \<Rightarrow> Inl e
             | Inr arrays \<Rightarrow> np_array np shape2 arrays))"

text \<open>
  \<open>inverse_transform\<close> has the same guard. The library's
  \<open>LabelBinarizer.inverse_transform\<close> of a fitted binarizer is the parameter
  \<open>inverse_binarize\<close>, given the classes and one document; it returns a
  one-dimensional array of tags.
\<close>

definition TargetVectorizer_inverse_transform ::
  "numpy \<Rightarrow> (string list \<Rightarrow> int list list \<Rightarrow> py_error + string list) \<Rightarrow> TargetVectorizer
     \<Rightarrow> int list list list \<Rightarrow> py_error + string list list" where
  "TargetVectorizer_inverse_transform np inverse_binarize self targets =
     (case classes' (vectorizer self) of
        None \<Rightarrow> Inl AttributeError
      | Some cs \<Rightarrow>
          if length cs = 0 then Inl NotAdaptedError
          else
            (case map_documents (inverse_binarize cs) targets of
               Inl e \<Rightarrow> Inl e
             | Inr arrays \<Rightarrow> np_array np shape1 arrays))"

section \<open>data\_input.py: DataInput\<close>

subsection \<open>parse\_dataset\<close>

definition TAB :: char where
  "TAB = CHR 0x09"

definition NL :: char where
  "NL = CHR 0x0A"

text \<open>
  A document is the list of its lines as \<open>readlines()\<close> returns them, each with its line
  terminator. The inner loop of the sentence mode carries \<open>X\<close>, \<open>y\<close>, \<open>sentence_text\<close>
  and \<open>sentence_tags\<close>. \<open>token, tag, number = line.split("\t")\<close> raises ValueError
  unless the split gives exactly three fields.
\<close>

fun read_lines ::
  "string list \<Rightarrow> string list list \<Rightarrow> string list list \<Rightarrow> string list \<Rightarrow> string list
     \<Rightarrow> py_error + (string list list \<times> string list list \<times> string list \<times> string list)" where
  "read_lines [] X y sentence_text sentence_tags = Inr (X, y, sentence_text, sentence_tags)"
| "read_lines (line # rest) X y sentence_text sentence_tags =
     (if strip line = []
      then read_lines rest (X @ [sentence_text]) (y @ [sentence_tags]) [] []
      else
        (case split_on TAB line of
           [token, tag, number] \<Rightarrow>
             read_lines rest X y (sentence_text @ [token]) (sentence_tags @ [tag])
         | _ \<Rightarrow> Inl ValueError))"

text \<open>
  The result of \<open>np.loadtxt(doc, str, delimiter="\t", usecols=(0, 1))\<close>: a
  two-dimensional array with two columns, or, for a file with a single record, the
  one-dimensional array of its two fields. \<open>loadtxt\<close> is numpy's, and a parameter
  here. \<open>np_doc[:, 0]\<close> raises IndexError on a one-dimensional array.
\<close>

datatype ndarray = Array1 "string list" | Array2 "(string \<times> string) list"

fun parse_dataset_loop ::
  "(string list \<Rightarrow> py_error + ndarray) \<Rightarrow> string list list \<Rightarrow> bool
     \<Rightarrow> string list list \<Rightarrow> string list list
     \<Rightarrow> py_error + (string list list \<times> string list list)" where
  "parse_dataset_loop loadtxt [] split_into_sentences X y = Inr (X, y)"
| "parse_dataset_loop loadtxt (doc # docs) split_into_sentences X y =
     (if split_into_sentences
      then
        (case read_lines doc X y [] [] of
           Inl e \<Rightarrow> Inl e
         | Inr (X', y', sentence_text, sentence_tags) \<Rightarrow>
             parse_dataset_loop loadtxt docs split_into_sentences
               (X' @ [sentence_text]) (y' @ [sentence_tags]))
      else
        (case loadtxt doc of
           Inl e \<Rightarrow> Inl e
         | Inr (Array1 row) \<Rightarrow> Inl IndexError
         | Inr (Array2 np_doc) \<Rightarrow>
             parse_dataset_loop loadtxt docs split_into_sentences
               (X @ [map fst np_doc]) (y @ [map snd np_doc])))"

text \<open>
  After the loop, \<open>return np.array(X), np.array(y)\<close>: every element of \<open>X\<close> and of
  \<open>y\<close> is a one-dimensional array, and \<open>np.array(X)\<close> is built first.
\<close>

definition parse_dataset ::
  "numpy \<Rightarrow> (string list \<Rightarrow> py_error + ndarray) \<Rightarrow> string list list \<Rightarrow> bool
     \<Rightarrow> py_error + (string list list \<times> string list list)" where
  "parse_dataset np loadtxt docs split_into_sentences =
     (case parse_dataset_loop loadtxt docs split_into_sentences [] [] of
        Inl e \<Rightarrow> Inl e
      | Inr (X, y) \<Rightarrow>
          (case np_array np shape1 X of
             Inl e \<Rightarrow> Inl e
           | Inr X' \<Rightarrow>
               (case np_array np shape1 y of
                  Inl e \<Rightarrow> Inl e
                | Inr y' \<Rightarrow> Inr (X', y'))))"

subsection \<open>train\_dev\_test\_split\<close>

text \<open>
  \<open>random.shuffle(x)\<close> is the Fisher-Yates loop
  \<open>for i in reversed(range(1, len(x))): j = randbelow(i + 1); x[i], x[j] = x[j], x[i]\<close>.
  The process-wide random source is the sequence \<open>draw\<close> of its raw draws: the \<open>k\<close>-th
  call \<open>randbelow(n)\<close> returns \<open>draw k mod n\<close>.
\<close>

fun shuffle_loop :: "(nat \<Rightarrow> nat) \<Rightarrow> nat \<Rightarrow> nat \<Rightarrow> 'a list \<Rightarrow> 'a list" where
  "shuffle_loop draw k 0 x = x"
| "shuffle_loop draw k (Suc i') x =
     (let i = Suc i'; j = draw k mod (i + 1)
      in shuffle_loop draw (k + 1) i' (x[i := x ! j, j := x ! i]))"

definition shuffle :: "(nat \<Rightarrow> nat) \<Rightarrow> 'a list \<Rightarrow> 'a list" where
  "shuffle draw x = shuffle_loop draw 0 (length x - 1) x"





section \<open>Vocabulary of the statements\<close>

text \<open>
  The definitions of this section are not code of the repository: they name the inputs
  that the theorems below quantify over or evaluate.
\<close>

text \<open>Sequences that all have one length.\<close>

definition same_length :: "'a list list \<Rightarrow> bool" where
  "same_length xs = list_all (\<lambda>x. length x = length (hd xs)) xs"


text \<open>Arbitrarily many distinct words: the empty word, \<open>a\<close>, \<open>aa\<close>, ...\<close>

definition fresh_words :: "nat \<Rightarrow> string list" where
  "fresh_words k = map (\<lambda>i. replicate i (CHR ''a'')) [0..<k]"




text \<open>
  The words of the statements about \<open>parse_dataset\<close>. The first and second field of a
  record line; the lines of a document grouped at its blank lines, the last group being
  what follows the last blank line; a document whose lines are all blank or have three
  fields; a document with two blank lines in a row.
\<close>

definition token_of :: "string \<Rightarrow> string" where
  "token_of line = hd (split_on TAB line)"

definition tag_of :: "string \<Rightarrow> string" where
  "tag_of line = hd (tl (split_on TAB line))"

fun sentences :: "string list \<Rightarrow> string list list" where
  "sentences [] = [[]]"
| "sentences (line # rest) =
     (if strip line = [] then [] # sentences rest
      else (line # hd (sentences rest)) # tl (sentences rest))"

definition well_formed :: "string list \<Rightarrow> bool" where
  "well_formed doc = list_all (\<lambda>line. strip line = [] \<or> length (split_on TAB line) = 3) doc"

definition adjacent_blank :: "string list \<Rightarrow> bool" where
  "adjacent_blank doc = (\<exists>p\<in>set (zip doc (tl doc)). strip (fst p) = [] \<and> strip (snd p) = [])"

text \<open>
  A record line \<open>token<TAB>tag<TAB>number\<close> with its line terminator, and a \<open>loadtxt\<close>
  for the evaluations in sentence mode, where \<open>loadtxt\<close> is never called.
\<close>

definition record_line :: "string \<Rightarrow> string \<Rightarrow> string \<Rightarrow> string" where
  "record_line token tag number = token @ [TAB] @ tag @ [TAB] @ number @ [NL]"

definition no_loadtxt :: "string list \<Rightarrow> py_error + ndarray" where
  "no_loadtxt doc = Inl ValueError"



text \<open>
  The embedding table. A line gives the word \<open>glove_word\<close> and the text \<open>glove_coefs\<close>
  that follows it; \<open>glove_entry\<close> is the entry that the line stores: the word and the
  numbers that \<open>np.fromstring\<close> reads from the text. The loader accepts a line when the
  split gives two fields and, where numpy raises on unmatched data, the text is read to
  its end.
\<close>

definition glove_word :: "string \<Rightarrow> string" where
  "glove_word line = hd (split_maxsplit1 line)"

definition glove_coefs :: "string \<Rightarrow> string" where
  "glove_coefs line = hd (tl (split_maxsplit1 line))"

definition glove_entry ::
  "(string \<Rightarrow> ('f \<times> nat) option) \<Rightarrow> string \<Rightarrow> string \<times> 'f list" where
  "glove_entry strtod line =
     (glove_word line, fst (fromstring_loop strtod (glove_coefs line) []))"

definition line_accepted ::
  "unmatched_data \<Rightarrow> (string \<Rightarrow> ('f \<times> nat) option) \<Rightarrow> string \<Rightarrow> bool" where
  "line_accepted um strtod line =
     (length (split_maxsplit1 line) = 2 \<and>
      (um = Warns \<or> snd (fromstring_loop strtod (glove_coefs line) [])))"

text \<open>
  A number scanner for the examples: it skips whitespace, reads the longest run of
  digits and decimal points, and keeps the number as its literal. A file system whose
  only file is the table of dimension 2 in the folder \<open>glove\<close>.
\<close>

definition scan_literal :: "string \<Rightarrow> (string \<times> nat) option" where
  "scan_literal s =
     (let blank = takeWhile c_isspace s;
          literal = takeWhile (\<lambda>c. c \<in> set ''0123456789.'') (dropWhile c_isspace s)
      in if literal = [] then None else Some (literal, length blank + length literal))"

definition glove_files :: "string list \<Rightarrow> string \<rightharpoonup> string list" where
  "glove_files lines = [''glove/glove.6B.2d.txt'' \<mapsto> lines]"

section \<open>numpy: building arrays\<close>

lemma np_array_cases:
  "np_array np shape xs = Inr xs \<or> np_array np shape xs = Inl ValueError_np_array"
  by (simp add: np_array_def)

lemma np_array_same_shape:
  "list_all (\<lambda>x. shape x = shape (hd xs)) xs \<Longrightarrow> np_array np shape xs = Inr xs"
  by (simp add: np_array_def)

lemma np_array_From_1_24:
  "np_array From_1_24 shape xs =
     (if list_all (\<lambda>x. shape x = shape (hd xs)) xs then Inr xs else Inl ValueError_np_array)"
  by (simp add: np_array_def)

lemma np_array_first_dimension:
  assumes "\<And>x. x \<in> set xs \<Longrightarrow> shape x = shape (hd xs) \<or> take 1 (shape x) \<noteq> take 1 (shape (hd xs))"
  shows "np_array Before_1_24 shape xs = Inr xs"
proof (cases "list_all (\<lambda>x. shape x = shape (hd xs)) xs")
  case True
  then show ?thesis by (rule np_array_same_shape)
next
  case False
  then obtain x where "x \<in> set xs" and "shape x \<noteq> shape (hd xs)"
    by (auto simp: list_all_iff)
  with assms have "list_ex (\<lambda>x. take 1 (shape x) \<noteq> take 1 (shape (hd xs))) xs"
    by (auto simp: list_ex_iff)
  with False show ?thesis by (simp add: np_array_def)
qed

lemma np_array_shape1_Before_1_24: "np_array Before_1_24 shape1 xs = Inr xs"
  by (rule np_array_first_dimension) (simp add: shape1_def)

lemma np_array_shape1:
  "np_array np shape1 xs =
     (if np = Before_1_24 \<or> list_all (\<lambda>x. length x = length (hd xs)) xs then Inr xs
      else Inl ValueError_np_array)"
proof (cases np)
  case Before_1_24
  then show ?thesis by (simp add: np_array_shape1_Before_1_24)
next
  case From_1_24
  then show ?thesis by (simp add: np_array_From_1_24 shape1_def)
qed

lemma shape2_uniform:
  assumes "\<And>row. row \<in> set a \<Longrightarrow> length row = k"
  shows "shape2 a = (if a = [] then [0] else [length a, k])"
proof (cases a)
  case Nil
  then show ?thesis by (simp add: shape2_def)
next
  case (Cons r rs)
  then have "list_all (\<lambda>row. length row = length (hd a)) a"
    using assms by (auto simp: list_all_iff)
  with Cons assms show ?thesis by (simp add: shape2_def)
qed

lemma np_array_shape2_uniform:
  assumes "\<And>a row. a \<in> set arrays \<Longrightarrow> row \<in> set a \<Longrightarrow> length row = k"
  shows "np_array np shape2 arrays =
     (if np = Before_1_24 \<or> list_all (\<lambda>a. length a = length (hd arrays)) arrays then Inr arrays
      else Inl ValueError_np_array)"
proof (cases arrays)
  case Nil
  then show ?thesis by (simp add: np_array_def)
next
  case (Cons a0 as)
  have s: "shape2 a = (if a = [] then [0] else [length a, k])" if "a \<in> set arrays" for a
    by (rule shape2_uniform) (use assms that in blast)
  have eq: "(shape2 a = shape2 (hd arrays)) = (length a = length (hd arrays))"
    and fd: "(take 1 (shape2 a) \<noteq> take 1 (shape2 (hd arrays))) = (length a \<noteq> length (hd arrays))"
    if "a \<in> set arrays" for a
    using s [OF that] s [of "hd arrays"] Cons by (auto split: if_splits)
  have all: "list_all (\<lambda>a. shape2 a = shape2 (hd arrays)) arrays =
      list_all (\<lambda>a. length a = length (hd arrays)) arrays"
    using eq by (auto simp: list_all_iff)
  show ?thesis
  proof (cases np)
    case From_1_24
    then show ?thesis by (simp add: np_array_From_1_24 all)
  next
    case Before_1_24
    have "np_array Before_1_24 shape2 arrays = Inr arrays"
      by (rule np_array_first_dimension) (use eq fd in blast)
    with Before_1_24 show ?thesis by simp
  qed
qed

section \<open>TextVectorizer: parse\_glove\<close>

lemma parse_glove_lines_eq:
  "parse_glove_lines um strtod lines voc =
     (if list_all (line_accepted um strtod) lines
      then Inr (voc ++ map_of (rev (map (glove_entry strtod) lines)))
      else Inl ValueError)"
proof (induction lines arbitrary: voc)
  case Nil
  show ?case by simp
next
  case (Cons line rest)
  show ?case
  proof (cases "length (split_maxsplit1 line) = 2")
    case False
    then have "parse_glove_lines um strtod (line # rest) voc = Inl ValueError"
      by (auto split: list.splits)
    then show ?thesis using False by (simp add: line_accepted_def)
  next
    case True
    then obtain word coefs where split: "split_maxsplit1 line = [word, coefs]"
      by (auto simp: length_Suc_conv numeral_2_eq_2)
    obtain vs e where loop: "fromstring_loop strtod coefs [] = (vs, e)"
      by (cases "fromstring_loop strtod coefs []")
    have entry: "glove_entry strtod line = (word, vs)"
      by (simp add: glove_entry_def glove_word_def glove_coefs_def split loop)
    have acc: "line_accepted um strtod line \<longleftrightarrow> um = Warns \<or> e"
      by (simp add: line_accepted_def glove_coefs_def split loop)
    show ?thesis
    proof (cases "um = Warns \<or> e")
      case False
      then show ?thesis by (simp add: split fromstring_def loop acc)
    next
      case True
      then have "parse_glove_lines um strtod (line # rest) voc =
          parse_glove_lines um strtod rest (voc(word \<mapsto> vs))"
        by (auto simp add: split fromstring_def loop)
      also have "\<dots> = (if list_all (line_accepted um strtod) rest
          then Inr (voc(word \<mapsto> vs) ++ map_of (rev (map (glove_entry strtod) rest)))
          else Inl ValueError)"
        by (rule Cons.IH)
      finally show ?thesis
        using True by (simp add: acc entry fun_eq_iff map_add_def split: option.splits)
    qed
  qed
qed

text \<open>
  Claim C4, as the code has it. The loader checks no length and has no FormatError.
  It raises FileNotFoundError when the table of the dimension is missing, and ValueError
  when some line does not split into a word and a text (and, where numpy raises on
  unmatched data, when the text of some line is not read to its end). Otherwise it
  returns the vocabulary in which every word of the table has the numbers read from the
  text of its last line, however many they are: \<open>embedding_dim\<close> selects the file and
  is compared with nothing.
\<close>

theorem parse_glove_no_length_check:
  "parse_glove um fs strtod n embedding_folder =
     (case fs (glove_file embedding_folder n) of
        None \<Rightarrow> Inl FileNotFoundError
      | Some lines \<Rightarrow>
          if list_all (line_accepted um strtod) lines
          then Inr (map_of (rev (map (glove_entry strtod) lines)))
          else Inl ValueError)"
  by (simp add: parse_glove_def parse_glove_lines_eq split: option.splits)

text \<open>
  Claim C4 as the specification states it fails. With \<open>embedding_dim = 2\<close>, the table
  whose lines are \<open>cat 0.1\<close> and \<open>dog 0.3 0.4\<close> is loaded without an error and gives
  \<open>cat\<close> a vector of length 1; the line \<open>cat\<close> raises ValueError; and where numpy only
  warns, the line \<open>cat 0.1 x 0.3\<close> gives \<open>cat\<close> the truncated vector of length 1.
\<close>

theorem parse_glove_no_length_check_counterexample:
  "map_sum id (\<lambda>self. (embedding_dim self, vocabulary self ''cat'', vocabulary self ''dog''))
     (TextVectorizer_init Warns (glove_files [''cat 0.1'' @ [NL], ''dog 0.3 0.4'' @ [NL]])
        scan_literal 20000 2 ''glove'') =
     Inr (2, Some [''0.1''], Some [''0.3'', ''0.4''])
   \<and> map_sum id (\<lambda>self. (embedding_dim self, vocabulary self ''cat'', vocabulary self ''dog''))
     (TextVectorizer_init Raises (glove_files [''cat 0.1'' @ [NL], ''dog 0.3 0.4'' @ [NL]])
        scan_literal 20000 2 ''glove'') =
     Inr (2, Some [''0.1''], Some [''0.3'', ''0.4''])
   \<and> map_sum id (\<lambda>voc. voc ''cat'')
       (parse_glove Warns (glove_files [''cat'' @ [NL]]) scan_literal 2 ''glove'') =
       Inl ValueError
   \<and> map_sum id (\<lambda>voc. voc ''cat'')
       (parse_glove Raises (glove_files [''cat'' @ [NL]]) scan_literal 2 ''glove'') =
       Inl ValueError
   \<and> map_sum id (\<lambda>voc. voc ''cat'')
       (parse_glove Warns (glove_files [''cat 0.1 x 0.3'' @ [NL]]) scan_literal 2 ''glove'') =
       Inr (Some [''0.1''])"
  by code_simp

section \<open>TextVectorizer: adapt\<close>

lemma adapt_loop_dom: "dom (fst (adapt_loop d ws voc rng)) = dom voc \<union> set ws"
  by (induction ws arbitrary: voc rng) (auto simp: uniform_def split: prod.splits)

lemma adapt_loop_other: "w \<notin> set ws \<Longrightarrow> fst (adapt_loop d ws voc rng) w = voc w"
  by (induction ws arbitrary: voc rng) (auto simp: uniform_def split: prod.splits)

lemma set_oov_words: "set (oov_words hash voc documents) = set (concat documents) - dom voc"
  by (auto simp: oov_words_def dom_def)

lemma distinct_oov_words: "distinct (oov_words hash voc documents)"
  by (simp add: oov_words_def)

lemma length_oov_words:
  "length (oov_words hash voc documents) = card (set (concat documents) - dom voc)"
  using distinct_card [OF distinct_oov_words, of hash voc documents]
  by (simp add: set_oov_words)

lemma oov_words_Nil: "set (concat documents) \<subseteq> dom voc \<Longrightarrow> oov_words hash voc documents = []"
proof -
  assume "set (concat documents) \<subseteq> dom voc"
  then have "set (oov_words hash voc documents) = {}"
    unfolding set_oov_words by blast
  then show ?thesis by simp
qed

lemma adapt_vocabulary:
  "vocabulary (fst (TextVectorizer_adapt hash self rng documents)) =
     fst (adapt_loop (embedding_dim self) (oov_words hash (vocabulary self) documents) (vocabulary self) rng)"
  by (simp add: TextVectorizer_adapt_def Let_def split: prod.splits)

lemma adapt_dom:
  "dom (vocabulary (fst (TextVectorizer_adapt hash self rng documents))) = dom (vocabulary self) \<union> set (concat documents)"
  by (auto simp: adapt_vocabulary adapt_loop_dom set_oov_words)

lemma adapt_map_le:
  "vocabulary self \<subseteq>\<^sub>m vocabulary (fst (TextVectorizer_adapt hash self rng documents))"
  unfolding map_le_def
proof
  fix w assume "w \<in> dom (vocabulary self)"
  then have "w \<notin> set (oov_words hash (vocabulary self) documents)"
    by (simp add: set_oov_words)
  then show "vocabulary self w = vocabulary (fst (TextVectorizer_adapt hash self rng documents)) w"
    by (simp add: adapt_vocabulary adapt_loop_other)
qed

lemma adapt_count:
  "snd (snd (TextVectorizer_adapt hash self rng documents)) = card (set (concat documents) - dom (vocabulary self))"
  by (simp add: TextVectorizer_adapt_def Let_def length_oov_words split: prod.splits)

lemma adapt_again:
  assumes "TextVectorizer_adapt hash self rng documents = (self', rng', n)"
  shows "TextVectorizer_adapt hash self' rng' documents = (self', rng', 0)"
proof -
  have "self' = fst (TextVectorizer_adapt hash self rng documents)" using assms by simp
  then have "set (concat documents) \<subseteq> dom (vocabulary self')"
    by (simp add: adapt_dom)
  then have "oov_words hash (vocabulary self') documents = []"
    by (rule oov_words_Nil)
  then show ?thesis by (simp add: TextVectorizer_adapt_def)
qed

text \<open>
  Claim C8. \<open>adapt\<close> adds exactly the distinct words of the documents that are not yet
  keys of the vocabulary: the new key set is the old one together with the words of the
  documents, the count it reports is the number of distinct words that were missing,
  every binding of the old vocabulary (pretrained or added by an earlier \<open>adapt\<close>) is
  still a binding of the new one, and a second \<open>adapt\<close> on the same documents changes
  neither the vocabulary nor the random generator and reports 0.
\<close>

theorem adapt_idempotent:
  "case TextVectorizer_adapt hash self rng documents of
     (self', rng', n) \<Rightarrow>
        dom (vocabulary self') = dom (vocabulary self) \<union> set (concat documents)
      \<and> n = card (set (concat documents) - dom (vocabulary self))
      \<and> vocabulary self \<subseteq>\<^sub>m vocabulary self'
      \<and> TextVectorizer_adapt hash self' rng' documents = (self', rng', 0)"
proof -
  obtain self' rng' n where a: "TextVectorizer_adapt hash self rng documents = (self', rng', n)"
    by (cases "TextVectorizer_adapt hash self rng documents") auto
  have "dom (vocabulary self') = dom (vocabulary self) \<union> set (concat documents)"
    using adapt_dom [of hash self rng documents] a by simp
  moreover have "n = card (set (concat documents) - dom (vocabulary self))"
    using adapt_count [of hash self rng documents] a by simp
  moreover have "vocabulary self \<subseteq>\<^sub>m vocabulary self'"
    using adapt_map_le [of self hash rng documents] a by simp
  moreover note adapt_again [OF a]
  ultimately show ?thesis using a by simp
qed

section \<open>TextVectorizer: transform\<close>














section \<open>TextVectorizer: max\_tokens\<close>

lemma adapt_max_tokens:
  "TextVectorizer_adapt hash (self\<lparr>max_tokens := m\<rparr>) rng documents =
     (case TextVectorizer_adapt hash self rng documents of (self', rng', n) \<Rightarrow> (self'\<lparr>max_tokens := m\<rparr>, rng', n))"
  by (simp add: TextVectorizer_adapt_def Let_def split: prod.splits)

lemma transform_document_max_tokens:
  "transform_document np (self\<lparr>max_tokens := m\<rparr>) = transform_document np self"
  by (rule ext) (simp add: transform_document_def)

lemma transform_max_tokens:
  "TextVectorizer_transform np (self\<lparr>max_tokens := m\<rparr>) documents =
     TextVectorizer_transform np self documents"
  by (simp add: TextVectorizer_transform_def transform_document_max_tokens)

lemma init_max_tokens:
  "TextVectorizer_init um fs strtod m d folder =
     map_sum id (\<lambda>self. self\<lparr>max_tokens := m\<rparr>) (TextVectorizer_init um fs strtod m' d folder)"
  by (simp add: TextVectorizer_init_def split: sum.splits)

lemma distinct_fresh_words: "distinct (fresh_words k)"
  unfolding fresh_words_def
  by (rule iffD2 [OF distinct_map]) (auto intro!: inj_onI dest: arg_cong [where f = length])

lemma vocabulary_unbounded:
  "\<exists>documents ws. distinct ws \<and> int (length ws) > max (max_tokens self) k
     \<and> set ws \<subseteq> dom (vocabulary (fst (TextVectorizer_adapt hash self rng documents)))
     \<and> max_tokens (fst (TextVectorizer_adapt hash self rng documents)) = max_tokens self"
proof -
  define n where "n = nat (max (max_tokens self) k) + 1"
  have "distinct (fresh_words n)" by (rule distinct_fresh_words)
  moreover have "int (length (fresh_words n)) > max (max_tokens self) k"
    by (auto simp: fresh_words_def n_def max_def)
  moreover have "set (fresh_words n) \<subseteq> dom (vocabulary (fst (TextVectorizer_adapt hash self rng [fresh_words n])))"
    by (simp add: adapt_dom)
  moreover have "max_tokens (fst (TextVectorizer_adapt hash self rng [fresh_words n])) = max_tokens self"
    by (simp add: TextVectorizer_adapt_def Let_def split: prod.splits)
  ultimately show ?thesis by blast
qed

text \<open>
  Claim C10. \<open>max_tokens\<close> is stored and never read. Two constructor calls that differ
  only in \<open>max_tokens\<close> build the same object up to that field (or raise the same
  error); \<open>adapt\<close> and \<open>transform\<close> on two objects that differ only in \<open>max_tokens\<close>
  give the same results up to that field; and for every bound \<open>k\<close> some corpus makes
  \<open>adapt\<close> leave a vocabulary with more than \<open>max_tokens\<close> and more than \<open>k\<close> distinct
  keys, \<open>max_tokens\<close> itself unchanged.
\<close>

theorem max_tokens_no_effect:
  "TextVectorizer_init um fs strtod m d folder =
     map_sum id (\<lambda>self. self\<lparr>max_tokens := m\<rparr>) (TextVectorizer_init um fs strtod m' d folder)
   \<and> TextVectorizer_adapt hash (self\<lparr>max_tokens := m\<rparr>) rng documents =
       (case TextVectorizer_adapt hash self rng documents of
          (self', rng', n) \<Rightarrow> (self'\<lparr>max_tokens := m\<rparr>, rng', n))
   \<and> TextVectorizer_transform np (self\<lparr>max_tokens := m\<rparr>) documents =
       TextVectorizer_transform np self documents
   \<and> (\<forall>k. \<exists>corpus ws. distinct ws \<and> int (length ws) > max (max_tokens self) k
          \<and> set ws \<subseteq> dom (vocabulary (fst (TextVectorizer_adapt hash self rng corpus)))
          \<and> max_tokens (fst (TextVectorizer_adapt hash self rng corpus)) = max_tokens self)"
proof (intro conjI allI)
  show "TextVectorizer_init um fs strtod m d folder =
     map_sum id (\<lambda>self. self\<lparr>max_tokens := m\<rparr>) (TextVectorizer_init um fs strtod m' d folder)"
    by (rule init_max_tokens)
  show "TextVectorizer_adapt hash (self\<lparr>max_tokens := m\<rparr>) rng documents =
       (case TextVectorizer_adapt hash self rng documents of
          (self', rng', n) \<Rightarrow> (self'\<lparr>max_tokens := m\<rparr>, rng', n))"
    by (rule adapt_max_tokens)
  show "TextVectorizer_transform np (self\<lparr>max_tokens := m\<rparr>) documents =
       TextVectorizer_transform np self documents"
    by (rule transform_max_tokens)
  show "\<exists>corpus ws. distinct ws \<and> int (length ws) > max (max_tokens self) k
          \<and> set ws \<subseteq> dom (vocabulary (fst (TextVectorizer_adapt hash self rng corpus)))
          \<and> max_tokens (fst (TextVectorizer_adapt hash self rng corpus)) = max_tokens self" for k
    by (rule vocabulary_unbounded)
qed

section \<open>TargetVectorizer\<close>

lemma map_documents_Inr:
  "(\<And>d. d \<in> set ds \<Longrightarrow> f d = Inr (g d)) \<Longrightarrow> map_documents f ds = Inr (map g ds)"
  by (induction ds) simp_all

lemma label_binarize_multiclass:
  "3 \<le> length cs \<Longrightarrow> y \<noteq> [] \<Longrightarrow>
     label_binarize y cs = Inr (map (\<lambda>label. map (\<lambda>c. if c = label then 1 else 0) cs) y)"
  by (simp add: label_binarize_def Let_def)

lemma TargetVectorizer_transform_multiclass:
  assumes "classes' (vectorizer self) = Some cs" and "3 \<le> length cs" and "[] \<notin> set targets"
  shows "TargetVectorizer_transform np self targets =
           (if np = Before_1_24 \<or> list_all (\<lambda>d. length d = length (hd targets)) targets
            then Inr (map (map (\<lambda>label. map (\<lambda>c. if c = label then 1 else 0) cs)) targets)
            else Inl ValueError_np_array)"
proof -
  let ?g = "map (\<lambda>label. map (\<lambda>c. if c = label then 1 else (0::int)) cs)"
  have m: "map_documents (\<lambda>document. label_binarize document cs) targets = Inr (map ?g targets)"
  proof (rule map_documents_Inr)
    fix d assume "d \<in> set targets"
    with assms(3) have "d \<noteq> []" by auto
    with assms(2) show "label_binarize d cs = Inr (?g d)"
      by (rule label_binarize_multiclass)
  qed
  have len: "length row = length cs" if "a \<in> set (map ?g targets)" and "row \<in> set a" for a row
    using that by auto
  have sl: "list_all (\<lambda>a. length a = length (hd (map ?g targets))) (map ?g targets) =
      list_all (\<lambda>d. length d = length (hd targets)) targets"
    by (cases targets) (auto simp: list_all_iff)
  have arr: "np_array np shape2 (map ?g targets) =
      (if np = Before_1_24 \<or> list_all (\<lambda>d. length d = length (hd targets)) targets
       then Inr (map ?g targets) else Inl ValueError_np_array)"
    unfolding sl [symmetric] by (rule np_array_shape2_uniform) (rule len)
  have "TargetVectorizer_transform np self targets = np_array np shape2 (map ?g targets)"
    using assms(1,2) m by (auto simp: TargetVectorizer_transform_def)
  with arr show ?thesis by simp
qed

lemma TargetVectorizer_adapt_classes:
  "TargetVectorizer_adapt self targets = Inr self' \<Longrightarrow>
     classes' (vectorizer self') = Some (sort (remdups (concat targets))) \<and> concat targets \<noteq> []"
  by (auto simp: TargetVectorizer_adapt_def fit_def split: if_splits)

text \<open>
  Claim C1. After \<open>adapt\<close> on \<open>[["NN", "VB"], ["NN"]]\<close> the classes are
  \<open>["NN", "VB"]\<close>, and \<open>transform\<close> of the document \<open>["NN", "VB"]\<close> is
  \<open>[[0], [1]]\<close>: with two classes the binarizer returns one column, not one-hot vectors
  of length two, whichever numpy runs the code. (With three classes or more and no empty
  document the rows are one-hot, by \<open>TargetVectorizer_transform_multiclass\<close>.)
\<close>

theorem TargetVectorizer_transform_two_classes:
  "TargetVectorizer_adapt TargetVectorizer_init [[''NN'', ''VB''], [''NN'']] =
     Inr \<lparr>vectorizer = \<lparr>classes' = Some [''NN'', ''VB'']\<rparr>\<rparr>
   \<and> get_classes \<lparr>vectorizer = \<lparr>classes' = Some [''NN'', ''VB'']\<rparr>\<rparr> = Inr [''NN'', ''VB'']
   \<and> TargetVectorizer_transform np \<lparr>vectorizer = \<lparr>classes' = Some [''NN'', ''VB'']\<rparr>\<rparr>
        [[''NN'', ''VB'']] = Inr [[[0], [1]]]"
proof (intro conjI)
  show "TargetVectorizer_adapt TargetVectorizer_init [[''NN'', ''VB''], [''NN'']] =
     Inr \<lparr>vectorizer = \<lparr>classes' = Some [''NN'', ''VB'']\<rparr>\<rparr>"
    by code_simp
  show "get_classes \<lparr>vectorizer = \<lparr>classes' = Some [''NN'', ''VB'']\<rparr>\<rparr> = Inr [''NN'', ''VB'']"
    by (simp add: get_classes_def)
  show "TargetVectorizer_transform np \<lparr>vectorizer = \<lparr>classes' = Some [''NN'', ''VB'']\<rparr>\<rparr>
        [[''NN'', ''VB'']] = Inr [[[0], [1]]]"
    by (simp add: TargetVectorizer_transform_def label_binarize_def type_of_target_def
        np_array_def)
qed

text \<open>
  Claim C2. On a vectorizer on which \<open>adapt\<close> was never called, \<open>transform\<close> and
  \<open>inverse_transform\<close> both raise AttributeError, for every argument: the guard reads
  an attribute that does not exist yet, so its NotAdaptedError is never reached (and
  \<open>np.array\<close> is not reached either).
\<close>

theorem TargetVectorizer_unadapted_AttributeError:
  "TargetVectorizer_transform np TargetVectorizer_init targets = Inl AttributeError
   \<and> TargetVectorizer_inverse_transform np inverse_binarize TargetVectorizer_init one_hot =
       Inl AttributeError"
  by (simp add: TargetVectorizer_transform_def TargetVectorizer_inverse_transform_def
      TargetVectorizer_init_def LabelBinarizer_init_def)

section \<open>DataInput: parse\_dataset\<close>

lemma three_fields:
  "(case xs of [token, tag, number] \<Rightarrow> f token tag number | _ \<Rightarrow> e) =
     (if length xs = 3 then f (hd xs) (hd (tl xs)) (hd (tl (tl xs))) else e)"
  by (auto split: list.splits)

lemma sentences_not_Nil [simp]: "sentences doc \<noteq> []"
  by (induction doc) simp_all

lemma read_lines_ill_formed:
  "\<not> well_formed doc \<Longrightarrow> read_lines doc X y st sg = Inl ValueError"
  by (induction doc arbitrary: X y st sg) (auto simp: well_formed_def three_fields)

lemma read_lines_well_formed:
  "well_formed doc \<Longrightarrow>
     read_lines doc X y st sg =
       Inr (X @ butlast ((st @ map token_of (hd (sentences doc))) # map (map token_of) (tl (sentences doc))),
            y @ butlast ((sg @ map tag_of (hd (sentences doc))) # map (map tag_of) (tl (sentences doc))),
            last ((st @ map token_of (hd (sentences doc))) # map (map token_of) (tl (sentences doc))),
            last ((sg @ map tag_of (hd (sentences doc))) # map (map tag_of) (tl (sentences doc))))"
proof (induction doc arbitrary: X y st sg)
  case Nil
  show ?case by simp
next
  case (Cons line rest)
  then have wf: "well_formed rest" by (simp add: well_formed_def)
  obtain s ss where S: "sentences rest = s # ss"
    by (cases "sentences rest") auto
  show ?case
  proof (cases "strip line = []")
    case True
    then show ?thesis
      using Cons.IH [OF wf, of "X @ [st]" "y @ [sg]" "[]" "[]"] S by simp
  next
    case False
    with Cons.prems have three: "length (split_on TAB line) = 3" by (simp add: well_formed_def)
    show ?thesis
      using False three S
        Cons.IH [OF wf, of X y "st @ [token_of line]" "sg @ [tag_of line]"]
      by (simp add: three_fields token_of_def tag_of_def)
  qed
qed

lemma hd_tl_map: "xs \<noteq> [] \<Longrightarrow> map f (hd xs) # map (map f) (tl xs) = map (map f) xs"
  by (cases xs) simp_all

lemma parse_dataset_loop_sentences:
  "parse_dataset_loop loadtxt docs True X y =
     (if list_all well_formed docs
      then Inr (X @ concat (map (\<lambda>doc. map (map token_of) (sentences doc)) docs),
                y @ concat (map (\<lambda>doc. map (map tag_of) (sentences doc)) docs))
      else Inl ValueError)"
proof (induction docs arbitrary: X y)
  case Nil
  show ?case by simp
next
  case (Cons doc docs)
  show ?case
  proof (cases "well_formed doc")
    case False
    then show ?thesis by (simp add: read_lines_ill_formed)
  next
    case True
    have a: "(Z @ butlast (map (map f) (sentences doc))) @ [last (map (map f) (sentences doc))] =
        Z @ map (map f) (sentences doc)"
      for f :: "string \<Rightarrow> string" and Z
      by simp
    show ?thesis
      using True
      by (simp add: read_lines_well_formed [OF True] hd_tl_map Cons.IH a del: append_assoc)
  qed
qed

lemma length_sentences:
  "length (sentences doc) = Suc (length (filter (\<lambda>line. strip line = []) doc))"
  by (induction doc) simp_all

lemma tl_sentences_Nil: "(tl (sentences doc) = []) = (\<forall>line\<in>set doc. strip line \<noteq> [])"
proof -
  have "(tl (sentences doc) = []) = (length (sentences doc) = 1)"
    by (cases "sentences doc") auto
  also have "\<dots> = (filter (\<lambda>line. strip line = []) doc = [])"
    by (simp add: length_sentences)
  also have "\<dots> = (\<forall>line\<in>set doc. strip line \<noteq> [])"
    by (simp add: filter_empty_conv)
  finally show ?thesis .
qed

lemma hd_sentences: "hd (sentences doc) = takeWhile (\<lambda>line. strip line \<noteq> []) doc"
  by (induction doc) simp_all

lemma last_sentences:
  "last (sentences doc) = rev (takeWhile (\<lambda>line. strip line \<noteq> []) (rev doc))"
proof (induction doc)
  case Nil
  show ?case by simp
next
  case (Cons line rest)
  show ?case
  proof (cases "\<forall>l\<in>set rest. strip l \<noteq> []")
    case True
    then have t: "tl (sentences rest) = []" by (simp add: tl_sentences_Nil)
    have h: "hd (sentences rest) = rest"
      using True by (simp add: hd_sentences)
    from t h have s: "sentences rest = [rest]"
      by (cases "sentences rest") auto
    show ?thesis using True s by (simp add: takeWhile_append)
  next
    case False
    then have t: "tl (sentences rest) \<noteq> []" by (simp add: tl_sentences_Nil)
    then have "last ((line # hd (sentences rest)) # tl (sentences rest)) = last (sentences rest)"
      by (cases "sentences rest") auto
    moreover have "last ([] # sentences rest) = last (sentences rest)" by simp
    ultimately show ?thesis
      using False Cons.IH by (auto simp: takeWhile_append)
  qed
qed

lemma adjacent_blank_Cons:
  "adjacent_blank (line # rest) =
     ((rest \<noteq> [] \<and> strip line = [] \<and> strip (hd rest) = []) \<or> adjacent_blank rest)"
  by (cases rest) (auto simp: adjacent_blank_def)

lemma adjacent_blank_Nil [simp]: "\<not> adjacent_blank []"
  by (simp add: adjacent_blank_def)

lemma empty_sentence:
  "([] \<in> set (sentences doc)) =
     (doc = [] \<or> strip (hd doc) = [] \<or> strip (last doc) = [] \<or> adjacent_blank doc)"
  and "([] \<in> set (tl (sentences doc))) =
     (doc \<noteq> [] \<and> (strip (last doc) = [] \<or> adjacent_blank doc))"
proof (induction doc)
  case Nil
  { case 1 show ?case by simp }
  { case 2 show ?case by simp }
next
  case (Cons line rest)
  { case 1
    show ?case
    proof (cases "strip line = []")
      case True then show ?thesis by simp
    next
      case False
      then show ?thesis
        using Cons.IH(2) by (auto simp: adjacent_blank_Cons)
    qed }
  { case 2
    show ?case
    proof (cases "strip line = []")
      case True
      then show ?thesis using Cons.IH(1) by (auto simp: adjacent_blank_Cons)
    next
      case False
      then show ?thesis using Cons.IH(2) by (auto simp: adjacent_blank_Cons)
    qed }
qed

lemma concat_sentences:
  "concat (sentences doc) = filter (\<lambda>line. strip line \<noteq> []) doc"
proof (induction doc)
  case Nil
  show ?case by simp
next
  case (Cons line rest)
  obtain s ss where S: "sentences rest = s # ss" by (cases "sentences rest") auto
  with Cons show ?case by auto
qed

lemma not_well_formed_iff:
  "(\<not> list_all well_formed docs) =
     (\<exists>doc\<in>set docs. \<exists>line\<in>set doc. strip line \<noteq> [] \<and> length (split_on TAB line) \<noteq> 3)"
  by (auto simp: list_all_iff well_formed_def)

lemma concat_map_map:
  "concat (map (\<lambda>doc. map f (g doc)) docs) = map f (concat (map g docs))"
  by (induction docs) simp_all

lemma parse_dataset_sentences:
  "parse_dataset np loadtxt docs True =
     (if \<not> list_all well_formed docs then Inl ValueError
      else if np = From_1_24 \<and> \<not> same_length (concat (map sentences docs))
      then Inl ValueError_np_array
      else Inr (map (map token_of) (concat (map sentences docs)),
                map (map tag_of) (concat (map sentences docs))))"
proof (cases "list_all well_formed docs")
  case False
  then show ?thesis by (simp add: parse_dataset_def parse_dataset_loop_sentences)
next
  case True
  let ?S = "concat (map sentences docs)"
  have loop: "parse_dataset_loop loadtxt docs True [] [] =
      Inr (map (map token_of) ?S, map (map tag_of) ?S)"
    using True by (simp add: parse_dataset_loop_sentences concat_map_map)
  have sl: "list_all (\<lambda>x. length x = length (hd (map (map f) ?S))) (map (map f) ?S) =
      same_length ?S" for f :: "string \<Rightarrow> string"
    by (cases ?S) (auto simp: same_length_def list_all_iff)
  show ?thesis
    using True by (cases np) (simp_all add: parse_dataset_def loop np_array_shape1 sl)
qed

lemma sum_list_length_sentences:
  "length (concat (map sentences docs)) =
     sum_list (map (\<lambda>doc. Suc (length (filter (\<lambda>line. strip line = []) doc))) docs)"
  by (simp add: length_concat comp_def length_sentences)

lemma empty_sentence_docs:
  "([] \<in> set (concat (map sentences docs))) =
     (\<exists>doc\<in>set docs. doc = [] \<or> strip (hd doc) = [] \<or> strip (last doc) = []
        \<or> (\<exists>p\<in>set (zip doc (tl doc)). strip (fst p) = [] \<and> strip (snd p) = []))"
  by (simp add: empty_sentence(1) adjacent_blank_def)

lemma last_sentence_docs:
  "docs \<noteq> [] \<Longrightarrow>
     last (concat (map sentences docs)) =
       rev (takeWhile (\<lambda>line. strip line \<noteq> []) (rev (last docs)))"
proof (induction docs)
  case Nil
  then show ?case by simp
next
  case (Cons doc docs)
  show ?case
  proof (cases "docs = []")
    case True
    then show ?thesis by (simp add: last_sentences)
  next
    case False
    then have "concat (map sentences docs) \<noteq> []" by (cases docs) auto
    then show ?thesis using False Cons by simp
  qed
qed



text \<open>
  Claim C5, as the code has it. In sentence mode every blank line emits the sequence
  accumulated so far and the end of each file emits the final one, empty or not.
  \<open>sentences doc\<close> are the groups of lines of a file between its blank lines, the last
  group being what follows the last blank line; when no line is malformed (and numpy
  builds the arrays), \<open>parse_dataset\<close> returns the first fields of the lines of each
  group as a token sequence and the second fields as the tag sequence at the same
  position. The groups of a file hold its lines that are not blank, in order; a file
  with \<open>b\<close> blank lines gives \<open>b + 1\<close> groups; some group is empty exactly when some
  file has no lines, begins with a blank line, ends with a blank line or has two blank
  lines in a row; and the last group holds the lines after the last blank line of the
  last file.
\<close>

theorem parse_dataset_sentence_documents:
  "parse_dataset np loadtxt docs True =
     (if \<exists>doc\<in>set docs. \<exists>line\<in>set doc. strip line \<noteq> [] \<and> length (split_on TAB line) \<noteq> 3
      then Inl ValueError
      else if np = From_1_24
              \<and> \<not> list_all (\<lambda>s. length s = length (hd (concat (map sentences docs))))
                     (concat (map sentences docs))
      then Inl ValueError_np_array
      else Inr (map (map (\<lambda>line. hd (split_on TAB line))) (concat (map sentences docs)),
                map (map (\<lambda>line. hd (tl (split_on TAB line)))) (concat (map sentences docs))))
   \<and> concat (concat (map sentences docs)) = filter (\<lambda>line. strip line \<noteq> []) (concat docs)
   \<and> length (concat (map sentences docs)) =
       sum_list (map (\<lambda>doc. Suc (length (filter (\<lambda>line. strip line = []) doc))) docs)
   \<and> ([] \<in> set (concat (map sentences docs))) =
       (\<exists>doc\<in>set docs. doc = [] \<or> strip (hd doc) = [] \<or> strip (last doc) = []
          \<or> (\<exists>p\<in>set (zip doc (tl doc)). strip (fst p) = [] \<and> strip (snd p) = []))
   \<and> (docs \<noteq> [] \<longrightarrow>
        last (concat (map sentences docs)) =
          rev (takeWhile (\<lambda>line. strip line \<noteq> []) (rev (last docs))))"
proof (intro conjI impI)
  show "parse_dataset np loadtxt docs True =
     (if \<exists>doc\<in>set docs. \<exists>line\<in>set doc. strip line \<noteq> [] \<and> length (split_on TAB line) \<noteq> 3
      then Inl ValueError
      else if np = From_1_24
              \<and> \<not> list_all (\<lambda>s. length s = length (hd (concat (map sentences docs))))
                     (concat (map sentences docs))
      then Inl ValueError_np_array
      else Inr (map (map (\<lambda>line. hd (split_on TAB line))) (concat (map sentences docs)),
                map (map (\<lambda>line. hd (tl (split_on TAB line)))) (concat (map sentences docs))))"
    unfolding not_well_formed_iff [symmetric]
    by (simp add: parse_dataset_sentences same_length_def token_of_def [abs_def]
        tag_of_def [abs_def])
  show "concat (concat (map sentences docs)) = filter (\<lambda>line. strip line \<noteq> []) (concat docs)"
    by (induction docs) (simp_all add: concat_sentences)
  show "length (concat (map sentences docs)) =
       sum_list (map (\<lambda>doc. Suc (length (filter (\<lambda>line. strip line = []) doc))) docs)"
    by (rule sum_list_length_sentences)
  show "([] \<in> set (concat (map sentences docs))) =
       (\<exists>doc\<in>set docs. doc = [] \<or> strip (hd doc) = [] \<or> strip (last doc) = []
          \<or> (\<exists>p\<in>set (zip doc (tl doc)). strip (fst p) = [] \<and> strip (snd p) = []))"
    by (rule empty_sentence_docs)
  show "last (concat (map sentences docs)) =
          rev (takeWhile (\<lambda>line. strip line \<noteq> []) (rev (last docs)))" if "docs \<noteq> []"
    using that by (rule last_sentence_docs)
qed

text \<open>
  The theorem at the file \<open>a NN 1 / b VB 2 / (blank) / c NN 3\<close>: older numpy returns two
  Documents, none empty, and numpy from 1.24 on raises, the two having different lengths;
  the last group is the line after the blank line.
\<close>

theorem parse_dataset_sentence_documents_witness:
  "[[record_line ''a'' ''NN'' ''1'', record_line ''b'' ''VB'' ''2'', [NL],
     record_line ''c'' ''NN'' ''3'']] \<noteq> []
   \<and> parse_dataset Before_1_24 no_loadtxt
        [[record_line ''a'' ''NN'' ''1'', record_line ''b'' ''VB'' ''2'', [NL],
          record_line ''c'' ''NN'' ''3'']] True =
       Inr ([[''a'', ''b''], [''c'']], [[''NN'', ''VB''], [''NN'']])
   \<and> parse_dataset From_1_24 no_loadtxt
        [[record_line ''a'' ''NN'' ''1'', record_line ''b'' ''VB'' ''2'', [NL],
          record_line ''c'' ''NN'' ''3'']] True = Inl ValueError_np_array
   \<and> last (concat (map sentences
        [[record_line ''a'' ''NN'' ''1'', record_line ''b'' ''VB'' ''2'', [NL],
          record_line ''c'' ''NN'' ''3'']])) = [record_line ''c'' ''NN'' ''3'']"
proof -
  have e1: "parse_dataset Before_1_24 no_loadtxt
        [[record_line ''a'' ''NN'' ''1'', record_line ''b'' ''VB'' ''2'', [NL],
          record_line ''c'' ''NN'' ''3'']] True =
       Inr ([[''a'', ''b''], [''c'']], [[''NN'', ''VB''], [''NN'']])"
    by code_simp
  have e2: "parse_dataset From_1_24 no_loadtxt
        [[record_line ''a'' ''NN'' ''1'', record_line ''b'' ''VB'' ''2'', [NL],
          record_line ''c'' ''NN'' ''3'']] True = Inl ValueError_np_array"
    by code_simp
  have e3: "rev (takeWhile (\<lambda>line. strip line \<noteq> [])
        (rev [record_line ''a'' ''NN'' ''1'', record_line ''b'' ''VB'' ''2'', [NL],
           record_line ''c'' ''NN'' ''3''])) = [record_line ''c'' ''NN'' ''3'']"
    by code_simp
  have "last (concat (map sentences
        [[record_line ''a'' ''NN'' ''1'', record_line ''b'' ''VB'' ''2'', [NL],
          record_line ''c'' ''NN'' ''3'']])) =
      rev (takeWhile (\<lambda>line. strip line \<noteq> [])
        (rev (last [[record_line ''a'' ''NN'' ''1'', record_line ''b'' ''VB'' ''2'', [NL],
           record_line ''c'' ''NN'' ''3'']])))"
    using parse_dataset_sentence_documents
      [of Before_1_24 no_loadtxt
        "[[record_line ''a'' ''NN'' ''1'', record_line ''b'' ''VB'' ''2'', [NL],
           record_line ''c'' ''NN'' ''3'']]"]
    by blast
  with e1 e2 e3 show ?thesis by simp
qed

text \<open>
  Claim C5 as stated fails, whichever numpy runs the code: a file of two blank lines
  gives three empty Documents. With older numpy, two blank lines in a row and a blank
  last line each emit an empty Document between and after the others.
\<close>

theorem parse_dataset_empty_document_counterexample:
  "parse_dataset Before_1_24 no_loadtxt [[[NL], [NL]]] True = Inr ([[], [], []], [[], [], []])
   \<and> parse_dataset From_1_24 no_loadtxt [[[NL], [NL]]] True = Inr ([[], [], []], [[], [], []])
   \<and> parse_dataset Before_1_24 no_loadtxt
        [[record_line ''a'' ''NN'' ''1'', [NL], [NL], record_line ''b'' ''VB'' ''2'', [NL]]] True =
       Inr ([[''a''], [], [''b''], []], [[''NN''], [], [''VB''], []])"
  by code_simp

section \<open>DataInput: train\_dev\_test\_split\<close>

lemma shuffle_loop_mset:
  "i < length x \<or> i = 0 \<Longrightarrow> mset (shuffle_loop draw k i x) = mset x"
proof (induction i arbitrary: k x)
  case 0
  show ?case by simp
next
  case (Suc i')
  then have i: "Suc i' < length x" by simp
  define j where "j = draw k mod (Suc i' + 1)"
  have "j < Suc i' + 1" unfolding j_def by simp
  with i have j: "j < length x" by linarith
  have sw: "mset (x[Suc i' := x ! j, j := x ! Suc i']) = mset x"
    using mset_swap [OF j i] .
  have "mset (shuffle_loop draw (k + 1) i' (x[Suc i' := x ! j, j := x ! Suc i'])) =
          mset (x[Suc i' := x ! j, j := x ! Suc i'])"
    by (rule Suc.IH) (use i in simp)
  with sw show ?case by (simp add: Let_def j_def)
qed

lemma shuffle_mset: "mset (shuffle draw x) = mset x"
  unfolding shuffle_def by (rule shuffle_loop_mset) (cases x, auto)

lemma shuffle_length: "length (shuffle draw x) = length x"
  by (rule mset_eq_length) (rule shuffle_mset)

lemma shuffle_Nil_iff: "(shuffle draw x = []) = (x = [])"
  using shuffle_length [of draw x] by auto






















end
